theory Spec2Isabelle
  imports Complex_Main "HOL-Library.Log_Nat"
begin

section \<open>The student dashboard page (src/app/student/dashboard/page.tsx)\<close>

subsection \<open>JavaScript numbers\<close>

text \<open>
  A JavaScript number is a double. The only non-finite value this page can meet is
  \<open>NaN\<close>, the time value of a date that did not parse: a value of its own here, absorbing
  for arithmetic and making every comparison false. A finite double is the real number
  it stands for. A subtraction or a division gives the double nearest to the exact
  result, the one with the even significand when two are equally near
  (\<open>to_double\<close>). The range of the exponent is not modelled (no overflow, no
  subnormal numbers): the numbers of this page are zero or lie between \<open>2 ^ -30\<close> and
  \<open>2 ^ 54\<close> in magnitude.
\<close>

datatype number = NaN | Num real

text \<open>The exponent of a positive real: \<open>2 ^ expo x \<le> x < 2 ^ (expo x + 1)\<close>.\<close>

definition expo :: "real \<Rightarrow> int" where
  "expo x = (if 1 \<le> x then bitlen \<lfloor>x\<rfloor> - 1 else - bitlen (\<lceil>1 / x\<rceil> - 1))"

text \<open>The distance between the doubles around a positive real: 53 significant bits.\<close>

definition ulp :: "real \<Rightarrow> real" where
  "ulp x = 2 powi (expo x - 52)"

text \<open>The nearest integer, the even one of two equally near.\<close>

definition round_even :: "real \<Rightarrow> int" where
  "round_even y =
     (let f = \<lfloor>y\<rfloor>; r = y - of_int f
      in if r < 1 / 2 then f else if 1 / 2 < r then f + 1 else if even f then f else f + 1)"

definition to_double :: "real \<Rightarrow> real" where
  "to_double x =
     (if x = 0 then 0
      else sgn x * (of_int (round_even (\<bar>x\<bar> / ulp \<bar>x\<bar>)) * ulp \<bar>x\<bar>))"

fun num_sub :: "number \<Rightarrow> number \<Rightarrow> number" where
  "num_sub (Num a) (Num b) = Num (to_double (a - b))"
| "num_sub _ _ = NaN"

text \<open>\<open>a / b\<close>. A zero divisor (which no expression of this page has) is outside the
  finite values of the model and is mapped to \<open>NaN\<close>.\<close>

fun num_div :: "number \<Rightarrow> number \<Rightarrow> number" where
  "num_div (Num a) (Num b) = (if b = 0 then NaN else Num (to_double (a / b)))"
| "num_div _ _ = NaN"

text \<open>Rounding towards zero, as the remainder operator of JavaScript uses it.\<close>

definition trunc :: "real \<Rightarrow> int" where
  "trunc x = (if 0 \<le> x then \<lfloor>x\<rfloor> else \<lceil>x\<rceil>)"

text \<open>
  \<open>a % b\<close>: the remainder of the truncated quotient (it has the sign of \<open>a\<close>). It is
  exact: the remainder of two doubles is a double.
\<close>

fun num_rem :: "number \<Rightarrow> number \<Rightarrow> number" where
  "num_rem (Num a) (Num b) = (if b = 0 then NaN else Num (a - b * of_int (trunc (a / b))))"
| "num_rem _ _ = NaN"

text \<open>\<open>a > b\<close>: false as soon as one side is \<open>NaN\<close>.\<close>

fun num_gt :: "number \<Rightarrow> number \<Rightarrow> bool" where
  "num_gt (Num a) (Num b) = (b < a)"
| "num_gt _ _ = False"

text \<open>\<open>Math.floor\<close>, exact as well: the floor of a double is a double.\<close>

fun Math_floor :: "number \<Rightarrow> number" where
  "Math_floor (Num a) = Num (of_int \<lfloor>a\<rfloor>)"
| "Math_floor NaN = NaN"

text \<open>A non-negative integer among the numbers.\<close>

fun nonneg_integer :: "number \<Rightarrow> bool" where
  "nonneg_integer (Num a) = (0 \<le> a \<and> of_int \<lfloor>a\<rfloor> = a)"
| "nonneg_integer NaN = False"

subsection \<open>Dates\<close>

text \<open>
  The time value of a \<open>Date\<close> is an integral number of milliseconds since the epoch,
  at most \<open>8640000000000000\<close> in magnitude (so it is a double), or \<open>NaN\<close> for an invalid
  date: \<open>None\<close> here. \<open>new Date(s)\<close> for a string \<open>s\<close> is the
  host's date parser; it is a parameter \<open>parse\<close> of everything below.
  \<open>new Date()\<close> is the date of the host's clock, always valid.
\<close>

type_synonym date = "int option"

fun getTime :: "date \<Rightarrow> number" where
  "getTime (Some t) = Num (of_int t)"
| "getTime None = NaN"

subsection \<open>Data model\<close>

record Course =
  course_id :: string
  title :: string
  description :: string
  duration_weeks :: number

record Enrollment =
  enrollment_id :: string
  course :: Course
  start_date :: string
  expected_end_date :: string
  status :: string

record TimeRemaining =
  weeks :: number
  days :: number
  hours :: number
  minutes :: number

subsection \<open>An enrollment card and the host's timers\<close>

text \<open>
  A timer of the host: the instant it is next due, its period, and its callback. The one
  callback this page ever registers is \<open>calculateTimeRemaining\<close>, a closure over
  \<open>enrollment.expected_end_date\<close>; it is represented by the captured string.
\<close>

type_synonym handle = nat

record timer =
  due :: int
  period :: int
  callback :: string

text \<open>
  The world of one card: its state \<open>timeRemaining\<close> (\<open>useState(null)\<close>), the teardown
  the effect returned (the interval handle that \<open>clearInterval\<close> will be given), the
  dependency the effect last ran with, the host's clock in milliseconds, the timers the
  card has registered with the host, the next free handle, and, as a ghost, the
  instants at which \<open>calculateTimeRemaining\<close> has run.
\<close>

record card =
  timeRemaining :: "TimeRemaining option"
  cleanup :: "handle option"
  deps :: "string option"
  clock :: int
  timers :: "(handle \<times> timer) list"
  next_handle :: handle
  computed :: "int list"

definition init_card :: "int \<Rightarrow> card" where
  "init_card t0 =
     \<lparr>timeRemaining = None, cleanup = None, deps = None, clock = t0, timers = [],
      next_handle = 0, computed = []\<rparr>"

definition setTimeRemaining :: "TimeRemaining \<Rightarrow> card \<Rightarrow> card" where
  "setTimeRemaining v w = w\<lparr>timeRemaining := Some v\<rparr>"

text \<open>Lines 123-138. The clock is read once; the run is recorded in \<open>computed\<close>.\<close>

definition calculateTimeRemaining :: "(string \<Rightarrow> date) \<Rightarrow> string \<Rightarrow> card \<Rightarrow> card" where
  "calculateTimeRemaining parse end_date w =
     (let now = getTime (Some (clock w));
          endDate = getTime (parse end_date);
          difference = num_sub endDate now;
          w' = w\<lparr>computed := computed w @ [clock w]\<rparr>
      in if num_gt difference (Num 0) then
           (let weeks = Math_floor (num_div difference (Num (1000 * 60 * 60 * 24 * 7)));
                days = Math_floor (num_rem (num_div difference (Num (1000 * 60 * 60 * 24))) (Num 7));
                hours = Math_floor (num_rem (num_div difference (Num (1000 * 60 * 60))) (Num 24));
                minutes = Math_floor (num_rem (num_div (num_div difference (Num 1000)) (Num 60)) (Num 60))
            in setTimeRemaining \<lparr>weeks = weeks, days = days, hours = hours, minutes = minutes\<rparr> w')
         else
           setTimeRemaining \<lparr>weeks = Num 0, days = Num 0, hours = Num 0, minutes = Num 0\<rparr> w')"

text \<open>
  \<open>setInterval(cb, ms)\<close>: a new timer, first due one period from now, under a fresh
  handle. The host does not let a period fall below its granularity, here one
  millisecond.
\<close>

definition setInterval :: "string \<Rightarrow> int \<Rightarrow> card \<Rightarrow> handle \<times> card" where
  "setInterval cb ms w =
     (next_handle w,
      w\<lparr>timers := timers w @ [(next_handle w, \<lparr>due = clock w + max 1 ms, period = max 1 ms, callback = cb\<rparr>)],
        next_handle := Suc (next_handle w)\<rparr>)"

text \<open>\<open>clearInterval(h)\<close>: the timer under \<open>h\<close>, if any, leaves the table.\<close>

definition clearInterval :: "handle \<Rightarrow> card \<Rightarrow> card" where
  "clearInterval h w = w\<lparr>timers := filter (\<lambda>(h', tm). h' \<noteq> h) (timers w)\<rparr>"

text \<open>
  Lines 122-144, the body of the effect: compute now, then arm the interval; what it
  returns, the call of \<open>clearInterval\<close> on that interval, is kept in \<open>cleanup\<close>.
\<close>

definition effect :: "(string \<Rightarrow> date) \<Rightarrow> Enrollment \<Rightarrow> card \<Rightarrow> card" where
  "effect parse enrollment w =
     (let w1 = calculateTimeRemaining parse (expected_end_date enrollment) w;
          (interval, w2) = setInterval (expected_end_date enrollment) 60000 w1
      in w2\<lparr>cleanup := Some interval\<rparr>)"

text \<open>Line 143, when the framework calls the teardown of the last run of the effect.\<close>

definition run_cleanup :: "card \<Rightarrow> card" where
  "run_cleanup w =
     (case cleanup w of
        None \<Rightarrow> w
      | Some interval \<Rightarrow> (clearInterval interval w)\<lparr>cleanup := None\<rparr>)"

text \<open>
  The framework: the effect runs when the card is mounted; on a later render it runs
  again, after the teardown of its last run, when its dependency
  \<open>enrollment.expected_end_date\<close> has changed; the teardown runs when the card is
  unmounted.
\<close>

definition mount :: "(string \<Rightarrow> date) \<Rightarrow> Enrollment \<Rightarrow> card \<Rightarrow> card" where
  "mount parse enrollment w =
     (effect parse enrollment w)\<lparr>deps := Some (expected_end_date enrollment)\<rparr>"

definition rerender :: "(string \<Rightarrow> date) \<Rightarrow> Enrollment \<Rightarrow> card \<Rightarrow> card" where
  "rerender parse enrollment w =
     (if deps w = Some (expected_end_date enrollment) then w
      else (effect parse enrollment (run_cleanup w))\<lparr>deps := Some (expected_end_date enrollment)\<rparr>)"

definition unmount :: "card \<Rightarrow> card" where
  "unmount w = (run_cleanup w)\<lparr>deps := None\<rparr>"

text \<open>
  The host's timers, with a clock that jumps from one due instant to the next: the
  timer due first (the one registered first among equals) fires at its due instant, its
  callback runs, and it is armed again one period later.
\<close>

fun earliest :: "(handle \<times> timer) list \<Rightarrow> (handle \<times> timer) option" where
  "earliest [] = None"
| "earliest (x # xs) =
     (case earliest xs of
        None \<Rightarrow> Some x
      | Some y \<Rightarrow> if due (snd x) \<le> due (snd y) then Some x else Some y)"

definition next_due :: "int \<Rightarrow> card \<Rightarrow> (handle \<times> timer) option" where
  "next_due T w = earliest (filter (\<lambda>(h, tm). due tm \<le> T) (timers w))"

definition rearm :: "handle \<Rightarrow> (handle \<times> timer) list \<Rightarrow> (handle \<times> timer) list" where
  "rearm h ts =
     map (\<lambda>(h', tm). if h' = h then (h', tm\<lparr>due := due tm + max 1 (period tm)\<rparr>) else (h', tm)) ts"

definition fire :: "(string \<Rightarrow> date) \<Rightarrow> handle \<Rightarrow> timer \<Rightarrow> card \<Rightarrow> card" where
  "fire parse h tm w =
     (let w1 = w\<lparr>clock := max (clock w) (due tm)\<rparr>;
          w2 = calculateTimeRemaining parse (callback tm) w1
      in w2\<lparr>timers := rearm h (timers w2)\<rparr>)"

function run_timers :: "(string \<Rightarrow> date) \<Rightarrow> int \<Rightarrow> card \<Rightarrow> card" where
  "run_timers parse T w =
     (case next_due T w of
        None \<Rightarrow> w\<lparr>clock := max (clock w) T\<rparr>
      | Some (h, tm) \<Rightarrow> run_timers parse T (fire parse h tm w))"
  by pat_completeness auto
termination
proof (relation "measure (\<lambda>(parse, T, w). sum_list (map (\<lambda>(h, tm). nat (T - due tm + 1)) (timers w)))")
  show "wf (measure (\<lambda>(parse, T, w). sum_list (map (\<lambda>(h, tm). nat (T - due tm + 1)) (timers w))))"
    by simp
next
  fix parse :: "string \<Rightarrow> date" and T :: int and w :: card and x :: "handle \<times> timer"
    and h :: handle and tm :: timer
  assume nd: "next_due T w = Some x" and x: "(h, tm) = x"
  have mem: "y \<in> set xs" if "earliest xs = Some y" for xs y
    using that by (induction xs arbitrary: y) (auto split: option.splits if_splits)
  have "x \<in> set (filter (\<lambda>(h, tm). due tm \<le> T) (timers w))"
    using nd unfolding next_due_def by (rule mem)
  then have "(h, tm) \<in> set (filter (\<lambda>(h, tm). due tm \<le> T) (timers w))"
    using x by simp
  then have inT: "(h, tm) \<in> set (timers w)" and dueT: "due tm \<le> T"
    by simp_all
  let ?f = "\<lambda>(h, tm). nat (T - due tm + 1)"
  have dec: "sum_list (map ?f (rearm h ts)) < sum_list (map ?f ts)" if "(h, tm) \<in> set ts" for ts
    using that
  proof (induction ts)
    case Nil
    then show ?case by simp
  next
    case (Cons a ts)
    have le: "sum_list (map ?f (rearm h us)) \<le> sum_list (map ?f us)" for us
      by (induction us) (auto simp: rearm_def)
    obtain h' tm' where a: "a = (h', tm')" by (cases a)
    show ?case
    proof (cases "a = (h, tm)")
      case True
      then have "?f (h, tm\<lparr>due := due tm + max 1 (period tm)\<rparr>) < ?f a"
        using dueT by simp
      then show ?thesis using True le [of ts] by (simp add: rearm_def)
    next
      case False
      then have "(h, tm) \<in> set ts" using Cons.prems by simp
      from Cons.IH [OF this] show ?thesis using a by (auto simp: rearm_def)
    qed
  qed
  have tw: "timers (fire parse h tm w) = rearm h (timers w)"
    by (simp add: fire_def calculateTimeRemaining_def Let_def setTimeRemaining_def)
  show "((parse, T, fire parse h tm w), (parse, T, w))
        \<in> measure (\<lambda>(parse, T, w). sum_list (map (\<lambda>(h, tm). nat (T - due tm + 1)) (timers w)))"
    using dec [OF inT] tw by simp
qed

declare run_timers.simps [simp del]

text \<open>\<open>dt\<close> milliseconds pass: every timer that falls due on the way fires.\<close>

definition elapse :: "(string \<Rightarrow> date) \<Rightarrow> int \<Rightarrow> card \<Rightarrow> card" where
  "elapse parse dt w = run_timers parse (clock w + dt) w"

text \<open>
  The life of a mounted card: renders with the enrollment of the moment, and time
  passing.
\<close>

datatype event = Rerender Enrollment | Elapse int

fun step :: "(string \<Rightarrow> date) \<Rightarrow> card \<Rightarrow> event \<Rightarrow> card" where
  "step parse w (Rerender enrollment) = rerender parse enrollment w"
| "step parse w (Elapse dt) = elapse parse dt w"

definition life :: "(string \<Rightarrow> date) \<Rightarrow> Enrollment \<Rightarrow> int \<Rightarrow> event list \<Rightarrow> card" where
  "life parse enrollment t0 evs = foldl (step parse) (mount parse enrollment (init_card t0)) evs"

subsection \<open>The enrollment loader\<close>

text \<open>
  What is thrown and caught: an error object, known here by its message.
\<close>

datatype js_error = JsError string

text \<open>
  How the awaited query ends: the promise rejects, or it resolves to an object
  \<open>{ data, error }\<close>, either field of which may be \<open>null\<close>.
\<close>

datatype response = Rejected js_error | Resolved "Enrollment list option" "js_error option"

text \<open>What \<open>fetchEnrollments\<close> does to the world, in the order it does it.\<close>

datatype action =
    Query "string option"
  | SetEnrollments "Enrollment list"
  | ConsoleError string js_error
  | SetCoursesLoading bool

text \<open>
  The page: its two pieces of state (\<open>useState([])\<close>, \<open>useState(true)\<close>), the
  diagnostic log, and the \<open>student_id\<close> of every query sent to the data service.
\<close>

record dashboard =
  enrollments :: "Enrollment list"
  coursesLoading :: bool
  console :: "(string \<times> js_error) list"
  requests :: "string option list"

definition init_dashboard :: dashboard where
  "init_dashboard = \<lparr>enrollments = [], coursesLoading = True, console = [], requests = []\<rparr>"

text \<open>\<open>data || []\<close>: an array, even an empty one, is truthy; \<open>null\<close> is not.\<close>

definition or_empty :: "Enrollment list option \<Rightarrow> Enrollment list" where
  "or_empty data = (case data of None \<Rightarrow> [] | Some xs \<Rightarrow> xs)"

text \<open>
  Lines 45-59, the body of \<open>try\<close>: the actions done, and how the block ends
  (\<open>Inl\<close>: an error is thrown). \<open>uid\<close> is \<open>user?.id\<close>.
\<close>

definition try_block :: "string option \<Rightarrow> response \<Rightarrow> action list \<times> (js_error + unit)" where
  "try_block uid r =
     (case r of
        Rejected e \<Rightarrow> ([Query uid], Inl e)
      | Resolved data error \<Rightarrow>
          (case error of
             Some e \<Rightarrow> ([Query uid], Inl e)
           | None \<Rightarrow> ([Query uid, SetEnrollments (or_empty data)], Inr ())))"

text \<open>Lines 60-61.\<close>

definition catch_block :: "js_error \<Rightarrow> action list \<times> (js_error + unit)" where
  "catch_block err = ([ConsoleError ''Error fetching enrollments:'' err], Inr ())"

text \<open>Lines 62-63.\<close>

definition finally_block :: "action list" where
  "finally_block = [SetCoursesLoading False]"

text \<open>
  Lines 43-65: \<open>try\<close>, then \<open>catch\<close> when the body threw, then \<open>finally\<close>. The result
  is the trace of actions and how the promise of the call settles (\<open>Inl\<close>: it rejects).
\<close>

definition fetchEnrollments :: "string option \<Rightarrow> response \<Rightarrow> action list \<times> (js_error + unit)" where
  "fetchEnrollments uid r =
     (case try_block uid r of
        (t, Inr u) \<Rightarrow> (t @ finally_block, Inr u)
      | (t, Inl err) \<Rightarrow> (case catch_block err of (c, res) \<Rightarrow> (t @ c @ finally_block, res)))"

fun exec :: "dashboard \<Rightarrow> action \<Rightarrow> dashboard" where
  "exec s (Query uid) = s\<lparr>requests := requests s @ [uid]\<rparr>"
| "exec s (SetEnrollments xs) = s\<lparr>enrollments := xs\<rparr>"
| "exec s (ConsoleError msg err) = s\<lparr>console := console s @ [(msg, err)]\<rparr>"
| "exec s (SetCoursesLoading b) = s\<lparr>coursesLoading := b\<rparr>"

text \<open>The page after one call of \<open>fetchEnrollments\<close> that the service answers with \<open>r\<close>.\<close>

definition load :: "string option \<Rightarrow> response \<Rightarrow> dashboard \<Rightarrow> dashboard" where
  "load uid r s = foldl exec s (fst (fetchEnrollments uid r))"

text \<open>The error of a failed request: the rejection, or the \<open>error\<close> field when it is set.\<close>

fun failure :: "response \<Rightarrow> js_error option" where
  "failure (Rejected e) = Some e"
| "failure (Resolved data error) = error"

text \<open>
  Lines 67-111: which of its three screens the page shows. \<open>loading\<close> is the flag of
  the session provider.
\<close>

datatype screen = Spinner | BrowseCourses | Cards "Enrollment list"

definition render :: "bool \<Rightarrow> dashboard \<Rightarrow> screen" where
  "render loading s =
     (if loading \<or> coursesLoading s then Spinner
      else if length (enrollments s) = 0 then BrowseCourses
      else Cards (enrollments s))"

text \<open>
  For the statements about the timer. \<open>elapsed\<close>: the time that passes in a sequence of
  events. \<open>steady d\<close>: an event that leaves the effect alone, time passing (forwards) or
  a render whose enrollment still has the expected end date \<open>d\<close>. \<open>ticking\<close>: the card
  ran its effect at \<open>t0\<close>, \<open>D\<close> ms ago, with the computations \<open>ks\<close> behind it then; since
  then it has computed at \<open>t0\<close> and every 60000 ms, shows the last value, and its one
  timer \<open>h\<close>, the one its teardown will clear, is due at the next multiple.
\<close>

fun elapsed :: "event list \<Rightarrow> int" where
  "elapsed [] = 0"
| "elapsed (Elapse dt # evs) = dt + elapsed evs"
| "elapsed (Rerender enrollment # evs) = elapsed evs"

fun steady :: "string \<Rightarrow> event \<Rightarrow> bool" where
  "steady d (Elapse dt) = (0 \<le> dt)"
| "steady d (Rerender enrollment) = (expected_end_date enrollment = d)"

definition ticking ::
    "(string \<Rightarrow> date) \<Rightarrow> string \<Rightarrow> handle \<Rightarrow> int list \<Rightarrow> int \<Rightarrow> int \<Rightarrow> card \<Rightarrow> bool" where
  "ticking parse cb h ks t0 D w \<longleftrightarrow>
     timers w = [(h, \<lparr>due = t0 + 60000 * (D div 60000 + 1), period = 60000, callback = cb\<rparr>)]
     \<and> cleanup w = Some h
     \<and> deps w = Some cb
     \<and> clock w = t0 + D
     \<and> computed w = ks @ map (\<lambda>k. t0 + 60000 * int k) [0..<Suc (nat (D div 60000))]
     \<and> timeRemaining w
         = timeRemaining (calculateTimeRemaining parse cb (init_card (t0 + 60000 * (D div 60000))))"

section \<open>The countdown computation\<close>

subsection \<open>Rounding to the nearest double\<close>

lemma expo_bounds:
  assumes "0 < x"
  shows "2 powi (expo x) \<le> x" "x < 2 powi (expo x + 1)"
proof -
  show "2 powi (expo x) \<le> x"
  proof (cases "1 \<le> x")
    case True
    then have p: "0 < \<lfloor>x\<rfloor>" by simp
    from bitlen_bounds [OF p] have "2 ^ nat (bitlen \<lfloor>x\<rfloor> - 1) \<le> \<lfloor>x\<rfloor>" ..
    then have "(2::real) ^ nat (bitlen \<lfloor>x\<rfloor> - 1) \<le> of_int \<lfloor>x\<rfloor>"
      by (metis of_int_le_iff of_int_numeral of_int_power)
    also have "\<dots> \<le> x" by simp
    finally have "(2::real) ^ nat (bitlen \<lfloor>x\<rfloor> - 1) \<le> x" .
    moreover have "1 \<le> bitlen \<lfloor>x\<rfloor>" using p by (simp add: bitlen_alt_def)
    ultimately show ?thesis using True by (simp add: expo_def power_int_def)
  next
    case False
    let ?m = "\<lceil>1 / x\<rceil> - 1"
    have y: "1 < 1 / x" using False assms by simp
    then have p: "0 < ?m" by linarith
    have b1: "1 \<le> bitlen ?m" using p by (simp add: bitlen_alt_def)
    from bitlen_bounds [OF p] have "?m < 2 ^ nat (bitlen ?m)" ..
    then have "\<lceil>1 / x\<rceil> \<le> 2 ^ nat (bitlen ?m)" by simp
    then have "of_int \<lceil>1 / x\<rceil> \<le> (2::real) ^ nat (bitlen ?m)"
      by (metis of_int_le_iff of_int_numeral of_int_power)
    then have "1 / x \<le> 2 ^ nat (bitlen ?m)" by linarith
    then have "1 / 2 ^ nat (bitlen ?m) \<le> x"
      using assms by (simp add: field_simps)
    then show ?thesis using False b1 by (simp add: expo_def power_int_def field_simps)
  qed
  show "x < 2 powi (expo x + 1)"
  proof (cases "1 \<le> x")
    case True
    then have p: "0 < \<lfloor>x\<rfloor>" by simp
    have b1: "1 \<le> bitlen \<lfloor>x\<rfloor>" using p by (simp add: bitlen_alt_def)
    from bitlen_bounds [OF p] have "\<lfloor>x\<rfloor> < 2 ^ nat (bitlen \<lfloor>x\<rfloor>)" ..
    then have "\<lfloor>x\<rfloor> + 1 \<le> 2 ^ nat (bitlen \<lfloor>x\<rfloor>)" by simp
    then have "of_int (\<lfloor>x\<rfloor> + 1) \<le> (2::real) ^ nat (bitlen \<lfloor>x\<rfloor>)"
      by (metis of_int_le_iff of_int_numeral of_int_power)
    moreover have "x < of_int (\<lfloor>x\<rfloor> + 1)" by linarith
    ultimately have "x < 2 ^ nat (bitlen \<lfloor>x\<rfloor>)" by linarith
    then show ?thesis using True b1 by (simp add: expo_def power_int_def)
  next
    case False
    let ?m = "\<lceil>1 / x\<rceil> - 1"
    have y: "1 < 1 / x" using False assms by simp
    then have p: "0 < ?m" by linarith
    have b1: "1 \<le> bitlen ?m" using p by (simp add: bitlen_alt_def)
    from bitlen_bounds [OF p] have "2 ^ nat (bitlen ?m - 1) \<le> ?m" ..
    then have "(2::real) ^ nat (bitlen ?m - 1) \<le> of_int ?m"
      by (metis of_int_le_iff of_int_numeral of_int_power)
    moreover have "of_int ?m < 1 / x" by linarith
    ultimately have "2 ^ nat (bitlen ?m - 1) < 1 / x" by linarith
    then have lt: "x < 1 / 2 ^ nat (bitlen ?m - 1)"
      using assms by (simp add: field_simps)
    have "expo x + 1 = - (bitlen ?m - 1)" using False by (simp add: expo_def)
    moreover have "2 powi (- (bitlen ?m - 1)) = 1 / (2::real) ^ nat (bitlen ?m - 1)"
      using b1 by (simp add: power_int_def field_simps)
    ultimately show ?thesis using lt by simp
  qed
qed



lemma powi_52: "(2::real) ^ 52 = 2 powi 52"
  by simp



lemma powi_add: "(2::real) powi a * 2 powi b = 2 powi (a + b)"
  by (rule power_int_add [symmetric]) simp

lemma ulp_pos: "0 < ulp x"
  by (simp add: ulp_def)

lemma ulp_low:
  assumes "0 < x"
  shows "ulp x * 2 ^ 52 \<le> x"
proof -
  have "ulp x * 2 ^ 52 = 2 powi (expo x)"
    unfolding ulp_def powi_52 powi_add by simp
  then show ?thesis using expo_bounds(1) [OF assms] by simp
qed




lemma round_even_bounds:
  "\<lfloor>y\<rfloor> \<le> round_even y" "round_even y \<le> \<lceil>y\<rceil>" "of_int (round_even y) \<le> y + 1 / 2"
proof -
  show "\<lfloor>y\<rfloor> \<le> round_even y" by (simp add: round_even_def Let_def)
  show "round_even y \<le> \<lceil>y\<rceil>"
    unfolding round_even_def Let_def by (auto simp: ceiling_def) linarith+
  show "of_int (round_even y) \<le> y + 1 / 2"
    unfolding round_even_def Let_def by auto linarith+
qed


lemma to_double_pos:
  assumes "0 < x"
  shows "to_double x = of_int (round_even (x / ulp x)) * ulp x"
  using assms by (simp add: to_double_def)

text \<open>Rounding does not cross a point of the grid.\<close>

lemma to_double_ge:
  assumes "0 < x" and "of_int k * ulp x \<le> x"
  shows "of_int k * ulp x \<le> to_double x"
proof -
  have "of_int k \<le> x / ulp x" using assms(2) ulp_pos [of x] by (simp add: field_simps)
  then have "k \<le> \<lfloor>x / ulp x\<rfloor>" by (simp add: le_floor_iff)
  then have "k \<le> round_even (x / ulp x)" using round_even_bounds(1) [of "x / ulp x"] by simp
  then have "real_of_int k \<le> of_int (round_even (x / ulp x))" by simp
  then show ?thesis
    unfolding to_double_pos [OF assms(1)] using ulp_pos [of x] by simp
qed



lemma to_double_positive:
  assumes "0 < x"
  shows "0 < to_double x"
proof -
  have "of_int (2 ^ 52) * ulp x \<le> to_double x"
    using to_double_ge [OF assms, of "2 ^ 52"] ulp_low [OF assms] by (simp add: mult.commute)
  moreover have "0 < of_int (2 ^ 52) * ulp x" using ulp_pos [of x] by simp
  ultimately show ?thesis by linarith
qed

lemma to_double_minus: "to_double (- x) = - to_double x"
  by (simp add: to_double_def sgn_if)

lemma to_double_sign: "0 < to_double x \<longleftrightarrow> 0 < x"
proof (cases "0 < x")
  case True
  then show ?thesis using to_double_positive by simp
next
  case False
  show ?thesis
  proof (cases "x = 0")
    case True
    then show ?thesis by (simp add: to_double_def)
  next
    case nz: False
    then have "0 < - x" using False by simp
    then have "0 < to_double (- x)" by (rule to_double_positive)
    then show ?thesis using False by (simp add: to_double_minus)
  qed
qed






subsection \<open>Floors of quotients and remainders\<close>

lemma floor_rem:
  assumes "0 \<le> x" "0 < n"
  shows "\<lfloor>x - real_of_int n * of_int (trunc (x / real_of_int n))\<rfloor> = \<lfloor>x\<rfloor> mod n"
proof -
  have "0 \<le> x / real_of_int n" using assms by simp
  then have "trunc (x / real_of_int n) = \<lfloor>x / real_of_int n\<rfloor>" by (simp add: trunc_def)
  also have "\<dots> = \<lfloor>x\<rfloor> div n" using assms by (simp add: floor_divide_real_eq_div)
  finally have t: "trunc (x / real_of_int n) = \<lfloor>x\<rfloor> div n" .
  have "x - real_of_int n * of_int (\<lfloor>x\<rfloor> div n) = x - of_int (n * (\<lfloor>x\<rfloor> div n))" by simp
  then have "\<lfloor>x - real_of_int n * of_int (\<lfloor>x\<rfloor> div n)\<rfloor> = \<lfloor>x\<rfloor> - n * (\<lfloor>x\<rfloor> div n)"
    by (simp only: floor_diff_of_int)
  then show ?thesis using t by (simp add: minus_mult_div_eq_mod)
qed





text \<open>Whatever the positive numbers, no floor taken by the computation is negative.\<close>

lemma nonneg_floor_rem:
  assumes "0 \<le> y" and "0 < n"
  shows "nonneg_integer (Math_floor (num_rem (Num y) (Num (of_int n))))"
proof -
  have "0 \<le> \<lfloor>y\<rfloor> mod n" using assms(2) by simp
  with floor_rem [OF assms] show ?thesis using assms(2) by simp
qed

lemma nonneg_floor:
  assumes "0 \<le> y"
  shows "nonneg_integer (Math_floor (Num y))"
  using assms by simp

subsection \<open>What \<open>calculateTimeRemaining\<close> leaves in the card\<close>


lemma calc_positive_fields:
  assumes "parse s = Some e" "0 < e - clock w"
  shows "\<exists>t. timeRemaining (calculateTimeRemaining parse s w) = Some t
      \<and> nonneg_integer (weeks t) \<and> nonneg_integer (days t)
      \<and> nonneg_integer (hours t) \<and> nonneg_integer (minutes t)"
proof -
  define a where "a = to_double (real_of_int e - real_of_int (clock w))"
  have a: "0 < a" unfolding a_def using assms(2) by (simp add: to_double_sign)
  have d: "num_sub (getTime (parse s)) (getTime (Some (clock w))) = Num a"
    using assms(1) by (simp add: a_def)
  have pos: "num_gt (Num a) (Num 0)" using a by simp
  have q: "0 < to_double (a / c)" if "0 < c" for c
    using a that by (simp add: to_double_sign)
  have wk: "nonneg_integer (Math_floor (num_div (Num a) (Num (1000 * 60 * 60 * 24 * 7))))"
    using q [of 604800000] by simp
  have dy: "nonneg_integer (Math_floor (num_rem (num_div (Num a) (Num (1000 * 60 * 60 * 24))) (Num 7)))"
    using nonneg_floor_rem [of "to_double (a / 86400000)" 7] q [of 86400000] by simp
  have hr: "nonneg_integer (Math_floor (num_rem (num_div (Num a) (Num (1000 * 60 * 60))) (Num 24)))"
    using nonneg_floor_rem [of "to_double (a / 3600000)" 24] q [of 3600000] by simp
  have "0 < to_double (to_double (a / 1000) / 60)"
    using q [of 1000] by (simp add: to_double_sign)
  then have mi: "nonneg_integer (Math_floor (num_rem (num_div (num_div (Num a) (Num 1000)) (Num 60)) (Num 60)))"
    using nonneg_floor_rem [of "to_double (to_double (a / 1000) / 60)" 60] by simp
  show ?thesis
    unfolding calculateTimeRemaining_def Let_def d
    using wk dy hr mi by (simp only: pos if_True setTimeRemaining_def) simp
qed

lemma calc_nonpositive:
  assumes "parse s = Some e" "e - clock w \<le> 0"
  shows "calculateTimeRemaining parse s w =
     w\<lparr>timeRemaining := Some \<lparr>weeks = Num 0, days = Num 0, hours = Num 0, minutes = Num 0\<rparr>,
        computed := computed w @ [clock w]\<rparr>"
  using assms by (simp add: calculateTimeRemaining_def Let_def setTimeRemaining_def to_double_sign)

lemma calc_invalid:
  assumes "parse s = None"
  shows "calculateTimeRemaining parse s w =
     w\<lparr>timeRemaining := Some \<lparr>weeks = Num 0, days = Num 0, hours = Num 0, minutes = Num 0\<rparr>,
        computed := computed w @ [clock w]\<rparr>"
  using assms by (simp add: calculateTimeRemaining_def Let_def setTimeRemaining_def)






text \<open>
  C2. When the expected end instant is at or before the instant of the computation, the
  computed TimeRemaining is 0 weeks, 0 days, 0 hours, 0 minutes; so it is for an end
  date ten minutes in the past.
\<close>

theorem countdown_past_is_zero:
  assumes "parse s = Some e" and "e - clock w \<le> 0"
  shows "timeRemaining (calculateTimeRemaining parse s w) =
           Some \<lparr>weeks = Num 0, days = Num 0, hours = Num 0, minutes = Num 0\<rparr>"
  using calc_nonpositive [of parse s e w] assms by simp

theorem countdown_past_is_zero_witness:
  "timeRemaining (calculateTimeRemaining
       (\<lambda>s. if s = ''2023-11-14T22:03:20.000Z'' then Some 1699999400000 else None)
       ''2023-11-14T22:03:20.000Z'' (init_card 1700000000000))
     = Some \<lparr>weeks = Num 0, days = Num 0, hours = Num 0, minutes = Num 0\<rparr>"
proof -
  let ?parse = "\<lambda>s. if s = ''2023-11-14T22:03:20.000Z'' then Some (1699999400000::int) else None"
  have 1: "?parse ''2023-11-14T22:03:20.000Z'' = Some (1700000000000 - 10 * 60 * 1000)" by simp
  have 2: "1700000000000 - 10 * 60 * 1000 - clock (init_card 1700000000000) \<le> 0"
    by (simp add: init_card_def)
  from countdown_past_is_zero [of ?parse "''2023-11-14T22:03:20.000Z''"
      "1700000000000 - 10 * 60 * 1000" "init_card 1700000000000"] 1 2
  show ?thesis by blast
qed

text \<open>
  C3. Whatever the end date (a valid instant or none) and whatever the instant of the
  computation, the computation leaves a TimeRemaining whose four fields are
  non-negative integers; when the end instant is at or before that instant, all four
  are 0.
\<close>

theorem countdown_never_negative:
  "\<exists>t. timeRemaining (calculateTimeRemaining parse s w) = Some t
      \<and> nonneg_integer (weeks t) \<and> nonneg_integer (days t)
      \<and> nonneg_integer (hours t) \<and> nonneg_integer (minutes t)
      \<and> (parse s = Some e \<and> e - clock w \<le> 0 \<longrightarrow>
           t = \<lparr>weeks = Num 0, days = Num 0, hours = Num 0, minutes = Num 0\<rparr>)"
proof (cases "parse s")
  case None
  then show ?thesis using calc_invalid [of parse s w] by simp
next
  case (Some e')
  show ?thesis
  proof (cases "0 < e' - clock w")
    case True
    from calc_positive_fields [of parse s e' w] Some True
    obtain t where "timeRemaining (calculateTimeRemaining parse s w) = Some t"
      and "nonneg_integer (weeks t)" and "nonneg_integer (days t)"
      and "nonneg_integer (hours t)" and "nonneg_integer (minutes t)"
      by blast
    then show ?thesis using Some True by auto
  next
    case False
    then show ?thesis using calc_nonpositive [of parse s e' w] Some by simp
  qed
qed

theorem countdown_never_negative_witness:
  "\<exists>t. timeRemaining (calculateTimeRemaining (\<lambda>s. Some 1699999400000) ''2023-11-14T22:03:20.000Z''
            (init_card 1700000000000)) = Some t
      \<and> nonneg_integer (weeks t) \<and> nonneg_integer (days t)
      \<and> nonneg_integer (hours t) \<and> nonneg_integer (minutes t)
      \<and> t = \<lparr>weeks = Num 0, days = Num 0, hours = Num 0, minutes = Num 0\<rparr>"
  using countdown_never_negative [of "\<lambda>s. Some 1699999400000" "''2023-11-14T22:03:20.000Z''"
      "init_card 1700000000000" 1699999400000]
  by (simp add: init_card_def)

text \<open>
  C4. The computed TimeRemaining depends on the end date and on the instant of the
  computation only: two cards at the same instant compute the same value whatever else
  their states hold, and computing again at the same instant (the computation does not
  move the clock) gives the value again.
\<close>

theorem countdown_deterministic:
  assumes "clock w1 = clock w2"
  shows "timeRemaining (calculateTimeRemaining parse s w1)
           = timeRemaining (calculateTimeRemaining parse s w2)
       \<and> clock (calculateTimeRemaining parse s w1) = clock w1
       \<and> timeRemaining (calculateTimeRemaining parse s (calculateTimeRemaining parse s w1))
           = timeRemaining (calculateTimeRemaining parse s w1)"
  using assms by (simp add: calculateTimeRemaining_def Let_def setTimeRemaining_def)

theorem countdown_deterministic_witness:
  "timeRemaining (calculateTimeRemaining (\<lambda>s. Some 1701220700000) ''2023-11-29T01:18:20.000Z''
       (init_card 1700000000000))
     = timeRemaining (calculateTimeRemaining (\<lambda>s. Some 1701220700000) ''2023-11-29T01:18:20.000Z''
       ((init_card 1700000000000)\<lparr>timeRemaining := Some \<lparr>weeks = Num 9, days = Num 9, hours = Num 9, minutes = Num 9\<rparr>,
                                    computed := [1699999940000]\<rparr>))"
  using countdown_deterministic [of "init_card 1700000000000"
      "(init_card 1700000000000)\<lparr>timeRemaining := Some \<lparr>weeks = Num 9, days = Num 9, hours = Num 9, minutes = Num 9\<rparr>,
                                    computed := [1699999940000]\<rparr>"
      "\<lambda>s. Some 1701220700000" "''2023-11-29T01:18:20.000Z''"]
  by (simp add: init_card_def)

text \<open>
  C9. When the expected end date does not parse to a valid instant, its time value is
  NaN, so is the difference, the test \<open>difference > 0\<close> is false, and the computation
  ends in its else branch: 0 weeks, 0 days, 0 hours, 0 minutes.
\<close>

theorem countdown_invalid_date_is_zero:
  assumes "parse s = None"
  shows "num_sub (getTime (parse s)) (getTime (Some (clock w))) = NaN
       \<and> \<not> num_gt (num_sub (getTime (parse s)) (getTime (Some (clock w)))) (Num 0)
       \<and> timeRemaining (calculateTimeRemaining parse s w) =
           Some \<lparr>weeks = Num 0, days = Num 0, hours = Num 0, minutes = Num 0\<rparr>"
  using calc_invalid [of parse s w] assms by simp

theorem countdown_invalid_date_is_zero_witness:
  "timeRemaining (calculateTimeRemaining (\<lambda>s. None) ''soon'' (init_card 1700000000000)) =
           Some \<lparr>weeks = Num 0, days = Num 0, hours = Num 0, minutes = Num 0\<rparr>"
  using countdown_invalid_date_is_zero [of "\<lambda>s. None" "''soon''" "init_card 1700000000000"]
  by simp

section \<open>The enrollment loader\<close>

lemma fetch_failed:
  assumes "failure r = Some err"
  shows "fetchEnrollments uid r =
           ([Query uid, ConsoleError ''Error fetching enrollments:'' err, SetCoursesLoading False],
            Inr ())"
  using assms
  by (cases r)
    (simp_all add: fetchEnrollments_def try_block_def catch_block_def finally_block_def)

lemma fetch_succeeded:
  "fetchEnrollments uid (Resolved data None) =
     ([Query uid, SetEnrollments (or_empty data), SetCoursesLoading False], Inr ())"
  by (simp add: fetchEnrollments_def try_block_def finally_block_def)

lemma load_failed:
  assumes "failure r = Some err"
  shows "load uid r s =
           s\<lparr>coursesLoading := False,
             console := console s @ [(''Error fetching enrollments:'', err)],
             requests := requests s @ [uid]\<rparr>"
  by (simp add: load_def fetch_failed [OF assms])

lemma load_succeeded:
  "load uid (Resolved data None) s =
     s\<lparr>enrollments := or_empty data, coursesLoading := False, requests := requests s @ [uid]\<rparr>"
  by (simp add: load_def fetch_succeeded)

text \<open>
  C5 as stated does not hold of every call of the loader. Here the page has loaded one
  enrollment; a second call of the loader, which the effect of
  lines 37-41 makes when \<open>user\<close> or \<open>profile\<close> changes, meets a rejected request. The
  list is not empty afterwards, and the page shows the card of the first load, where a
  successful fetch of zero records would have left the empty list and the invitation
  to browse courses.
\<close>

theorem fetch_failure_not_empty_counterexample:
  "failure (Rejected (JsError ''Failed to fetch'')) = Some (JsError ''Failed to fetch'')
   \<and> enrollments (load (Some ''u1'') (Rejected (JsError ''Failed to fetch''))
        (load (Some ''u1'') (Resolved (Some [\<lparr>enrollment_id = ''e1'', course = \<lparr>course_id = ''c1'', title = ''Algebra'', description = ''Groups'', duration_weeks = Num 12\<rparr>, start_date = ''2023-09-01'', expected_end_date = ''2023-11-24'', status = ''active''\<rparr>]) None) init_dashboard))
       = [\<lparr>enrollment_id = ''e1'', course = \<lparr>course_id = ''c1'', title = ''Algebra'', description = ''Groups'', duration_weeks = Num 12\<rparr>, start_date = ''2023-09-01'', expected_end_date = ''2023-11-24'', status = ''active''\<rparr>]
   \<and> render False (load (Some ''u1'') (Rejected (JsError ''Failed to fetch''))
        (load (Some ''u1'') (Resolved (Some [\<lparr>enrollment_id = ''e1'', course = \<lparr>course_id = ''c1'', title = ''Algebra'', description = ''Groups'', duration_weeks = Num 12\<rparr>, start_date = ''2023-09-01'', expected_end_date = ''2023-11-24'', status = ''active''\<rparr>]) None) init_dashboard))
       = Cards [\<lparr>enrollment_id = ''e1'', course = \<lparr>course_id = ''c1'', title = ''Algebra'', description = ''Groups'', duration_weeks = Num 12\<rparr>, start_date = ''2023-09-01'', expected_end_date = ''2023-11-24'', status = ''active''\<rparr>]
   \<and> enrollments (load (Some ''u1'') (Resolved (Some []) None)
        (load (Some ''u1'') (Resolved (Some [\<lparr>enrollment_id = ''e1'', course = \<lparr>course_id = ''c1'', title = ''Algebra'', description = ''Groups'', duration_weeks = Num 12\<rparr>, start_date = ''2023-09-01'', expected_end_date = ''2023-11-24'', status = ''active''\<rparr>]) None) init_dashboard))
       = []
   \<and> render False (load (Some ''u1'') (Resolved (Some []) None)
        (load (Some ''u1'') (Resolved (Some [\<lparr>enrollment_id = ''e1'', course = \<lparr>course_id = ''c1'', title = ''Algebra'', description = ''Groups'', duration_weeks = Num 12\<rparr>, start_date = ''2023-09-01'', expected_end_date = ''2023-11-24'', status = ''active''\<rparr>]) None) init_dashboard))
       = BrowseCourses"
  by (simp add: load_def fetchEnrollments_def try_block_def catch_block_def finally_block_def
      or_empty_def render_def init_dashboard_def)

text \<open>
  C5, amended. When the request fails (the promise rejects, or resolves with its error
  set), the loader sends the one query, catches the error, writes it to the diagnostic
  log, and settles normally: nothing is sent again and nothing propagates. The
  enrollment list is left as it was before the call. When it was empty, as the page
  creates it, it is empty afterwards, and the page's state and screen are those after a
  successful fetch of zero records (an empty array or \<open>null\<close>).
\<close>

theorem fetch_failure_is_swallowed:
  assumes "failure r = Some err"
  shows "fetchEnrollments uid r =
           ([Query uid, ConsoleError ''Error fetching enrollments:'' err, SetCoursesLoading False],
            Inr ())
       \<and> console (load uid r s) = console s @ [(''Error fetching enrollments:'', err)]
       \<and> requests (load uid r s) = requests s @ [uid]
       \<and> enrollments (load uid r s) = enrollments s
       \<and> (enrollments s = [] \<longrightarrow>
            enrollments (load uid r s) = []
          \<and> enrollments (load uid r s) = enrollments (load uid (Resolved (Some []) None) s)
          \<and> coursesLoading (load uid r s) = coursesLoading (load uid (Resolved (Some []) None) s)
          \<and> enrollments (load uid r s) = enrollments (load uid (Resolved None None) s)
          \<and> coursesLoading (load uid r s) = coursesLoading (load uid (Resolved None None) s)
          \<and> render loading (load uid r s) = render loading (load uid (Resolved (Some []) None) s)
          \<and> render loading (load uid r s) = render loading (load uid (Resolved None None) s))"
  by (simp add: fetch_failed [OF assms] load_failed [OF assms] load_succeeded
      or_empty_def render_def)

theorem fetch_failure_is_swallowed_witness:
  "fetchEnrollments (Some ''u1'') (Rejected (JsError ''Failed to fetch'')) =
     ([Query (Some ''u1''), ConsoleError ''Error fetching enrollments:'' (JsError ''Failed to fetch''),
       SetCoursesLoading False], Inr ())
   \<and> enrollments (load (Some ''u1'') (Rejected (JsError ''Failed to fetch'')) init_dashboard) = []
   \<and> render False (load (Some ''u1'') (Rejected (JsError ''Failed to fetch'')) init_dashboard)
       = BrowseCourses
   \<and> render False (load (Some ''u1'') (Resolved (Some []) None) init_dashboard) = BrowseCourses"
proof -
  have 1: "failure (Rejected (JsError ''Failed to fetch'')) = Some (JsError ''Failed to fetch'')"
    by simp
  have 2: "enrollments init_dashboard = []" by (simp add: init_dashboard_def)
  have 3: "render False (load (Some ''u1'') (Resolved (Some []) None) init_dashboard) = BrowseCourses"
    by (simp add: load_succeeded or_empty_def render_def init_dashboard_def)
  from fetch_failure_is_swallowed [OF 1, of "Some ''u1''" init_dashboard False] 2 3
  show ?thesis by simp
qed

text \<open>
  C6. When the request succeeds, the loader calls \<open>setEnrollments\<close> once, and the
  page's enrollment list becomes the returned sequence itself, in the order returned,
  or the empty list when the service returned \<open>null\<close> or no record.
\<close>

theorem fetch_success_replaces_list:
  "fetchEnrollments uid (Resolved (Some xs) None) =
     ([Query uid, SetEnrollments xs, SetCoursesLoading False], Inr ())
   \<and> enrollments (load uid (Resolved (Some xs) None) s) = xs
   \<and> enrollments (load uid (Resolved (Some []) None) s) = []
   \<and> enrollments (load uid (Resolved None None) s) = []
   \<and> (failure r = None \<longrightarrow>
        (\<exists>data. r = Resolved data None \<and> enrollments (load uid r s) = or_empty data))"
proof -
  have "\<exists>data. r = Resolved data None \<and> enrollments (load uid r s) = or_empty data"
    if "failure r = None"
    using that by (cases r) (simp_all add: load_succeeded)
  then show ?thesis
    by (simp add: fetch_succeeded load_succeeded or_empty_def)
qed

theorem fetch_success_replaces_list_witness:
  "enrollments (load (Some ''u1'')
      (Resolved (Some [\<lparr>enrollment_id = ''e2'', course = \<lparr>course_id = ''c2'', title = ''Zoology'', description = ''Animals'', duration_weeks = Num 8\<rparr>, start_date = ''2023-10-01'', expected_end_date = ''2023-11-26'', status = ''active''\<rparr>,
                       \<lparr>enrollment_id = ''e1'', course = \<lparr>course_id = ''c1'', title = ''Algebra'', description = ''Groups'', duration_weeks = Num 12\<rparr>, start_date = ''2023-09-01'', expected_end_date = ''2023-11-24'', status = ''active''\<rparr>]) None) init_dashboard)
     = [\<lparr>enrollment_id = ''e2'', course = \<lparr>course_id = ''c2'', title = ''Zoology'', description = ''Animals'', duration_weeks = Num 8\<rparr>, start_date = ''2023-10-01'', expected_end_date = ''2023-11-26'', status = ''active''\<rparr>,
        \<lparr>enrollment_id = ''e1'', course = \<lparr>course_id = ''c1'', title = ''Algebra'', description = ''Groups'', duration_weeks = Num 12\<rparr>, start_date = ''2023-09-01'', expected_end_date = ''2023-11-24'', status = ''active''\<rparr>]"
proof -
  let ?xs = "[\<lparr>enrollment_id = ''e2'', course = \<lparr>course_id = ''c2'', title = ''Zoology'', description = ''Animals'', duration_weeks = Num 8\<rparr>, start_date = ''2023-10-01'', expected_end_date = ''2023-11-26'', status = ''active''\<rparr>,
              \<lparr>enrollment_id = ''e1'', course = \<lparr>course_id = ''c1'', title = ''Algebra'', description = ''Groups'', duration_weeks = Num 12\<rparr>, start_date = ''2023-09-01'', expected_end_date = ''2023-11-24'', status = ''active''\<rparr>]"
  have 1: "failure (Resolved (Some ?xs) None) = None" by simp
  from fetch_success_replaces_list [of "Some ''u1''" ?xs init_dashboard "Resolved (Some ?xs) None"] 1
  show ?thesis by blast
qed

text \<open>
  C10. When the request fails, no call of \<open>setEnrollments\<close> is among the loader's
  actions, the enrollment list is what it was before the call, and of the page's state
  only the loading flag is written: it is false afterwards. Besides that, the error is
  in the diagnostic log and the query is on record.
\<close>

theorem fetch_failure_keeps_list:
  assumes "failure r = Some err"
  shows "(\<forall>xs. SetEnrollments xs \<notin> set (fst (fetchEnrollments uid r)))
       \<and> enrollments (load uid r s) = enrollments s
       \<and> coursesLoading (load uid r s) = False
       \<and> load uid r s =
           s\<lparr>coursesLoading := False,
             console := console s @ [(''Error fetching enrollments:'', err)],
             requests := requests s @ [uid]\<rparr>"
  by (simp add: fetch_failed [OF assms] load_failed [OF assms])

theorem fetch_failure_keeps_list_witness:
  "enrollments (load (Some ''u1'') (Resolved None (Some (JsError ''permission denied'')))
      (init_dashboard\<lparr>enrollments := [\<lparr>enrollment_id = ''e1'', course = \<lparr>course_id = ''c1'', title = ''Algebra'', description = ''Groups'', duration_weeks = Num 12\<rparr>, start_date = ''2023-09-01'', expected_end_date = ''2023-11-24'', status = ''active''\<rparr>]\<rparr>))
     = [\<lparr>enrollment_id = ''e1'', course = \<lparr>course_id = ''c1'', title = ''Algebra'', description = ''Groups'', duration_weeks = Num 12\<rparr>, start_date = ''2023-09-01'', expected_end_date = ''2023-11-24'', status = ''active''\<rparr>]
   \<and> coursesLoading (load (Some ''u1'') (Resolved None (Some (JsError ''permission denied'')))
      (init_dashboard\<lparr>enrollments := [\<lparr>enrollment_id = ''e1'', course = \<lparr>course_id = ''c1'', title = ''Algebra'', description = ''Groups'', duration_weeks = Num 12\<rparr>, start_date = ''2023-09-01'', expected_end_date = ''2023-11-24'', status = ''active''\<rparr>]\<rparr>)) = False"
proof -
  let ?s = "init_dashboard\<lparr>enrollments := [\<lparr>enrollment_id = ''e1'', course = \<lparr>course_id = ''c1'', title = ''Algebra'', description = ''Groups'', duration_weeks = Num 12\<rparr>, start_date = ''2023-09-01'', expected_end_date = ''2023-11-24'', status = ''active''\<rparr>]\<rparr>"
  have 1: "failure (Resolved None (Some (JsError ''permission denied''))) = Some (JsError ''permission denied'')"
    by simp
  from fetch_failure_keeps_list [OF 1, of "Some ''u1''" ?s]
  show ?thesis by simp
qed

section \<open>The refresh timer of a card\<close>

subsection \<open>What each operation touches\<close>

lemma calc_frame:
  "timers (calculateTimeRemaining parse s w) = timers w"
  "cleanup (calculateTimeRemaining parse s w) = cleanup w"
  "deps (calculateTimeRemaining parse s w) = deps w"
  "clock (calculateTimeRemaining parse s w) = clock w"
  "next_handle (calculateTimeRemaining parse s w) = next_handle w"
  "computed (calculateTimeRemaining parse s w) = computed w @ [clock w]"
  by (simp_all add: calculateTimeRemaining_def Let_def setTimeRemaining_def)

lemma fire_frame:
  "timers (fire parse h tm w) = rearm h (timers w)"
  "cleanup (fire parse h tm w) = cleanup w"
  "deps (fire parse h tm w) = deps w"
  "clock (fire parse h tm w) = max (clock w) (due tm)"
  "next_handle (fire parse h tm w) = next_handle w"
  "computed (fire parse h tm w) = computed w @ [max (clock w) (due tm)]"
  by (simp_all add: fire_def Let_def calc_frame)

lemma handles_rearm: "map fst (rearm h ts) = map fst ts"
  by (induction ts) (auto simp: rearm_def)

lemma run_timers_frame:
  "map fst (timers (run_timers parse T w)) = map fst (timers w)
   \<and> cleanup (run_timers parse T w) = cleanup w
   \<and> deps (run_timers parse T w) = deps w
   \<and> next_handle (run_timers parse T w) = next_handle w"
proof (induction parse T w rule: run_timers.induct)
  case (1 parse T w)
  show ?case
  proof (cases "next_due T w")
    case None
    then show ?thesis by (simp add: run_timers.simps [of parse T w])
  next
    case (Some x)
    obtain h tm where x: "x = (h, tm)" by (cases x)
    from "1.IH" [OF Some x [symmetric]] Some x show ?thesis
      by (simp add: run_timers.simps [of parse T w] fire_frame handles_rearm)
  qed
qed

lemma run_timers_idle:
  assumes "timers w = []"
  shows "run_timers parse T w = w\<lparr>clock := max (clock w) T\<rparr>"
  using assms by (simp add: run_timers.simps [of parse T w] next_due_def)

lemma elapse_idle:
  assumes "timers w = []"
  shows "timers (elapse parse dt w) = []" "computed (elapse parse dt w) = computed w"
    "timeRemaining (elapse parse dt w) = timeRemaining w"
  using assms by (simp_all add: elapse_def run_timers_idle)

lemma elapses_idle:
  assumes "timers w = []"
  shows "computed (foldl (\<lambda>w dt. elapse parse dt w) w dts) = computed w
       \<and> timeRemaining (foldl (\<lambda>w dt. elapse parse dt w) w dts) = timeRemaining w
       \<and> timers (foldl (\<lambda>w dt. elapse parse dt w) w dts) = []"
  using assms by (induction dts arbitrary: w) (simp_all add: elapse_idle)

subsection \<open>The card's only timer is the one its teardown will clear\<close>

lemma effect_tidy:
  assumes "timers w = []"
  shows "map fst (timers (effect parse en w)) = [next_handle w]"
    "cleanup (effect parse en w) = Some (next_handle w)"
  using assms by (simp_all add: effect_def setInterval_def Let_def calc_frame)

lemma run_cleanup_tidy:
  assumes "map fst (timers w) = (case cleanup w of None \<Rightarrow> [] | Some h \<Rightarrow> [h])"
  shows "timers (run_cleanup w) = []" "cleanup (run_cleanup w) = None"
    "computed (run_cleanup w) = computed w" "timeRemaining (run_cleanup w) = timeRemaining w"
proof -
  show "timers (run_cleanup w) = []"
  proof (cases "cleanup w")
    case None
    then show ?thesis using assms by (simp add: run_cleanup_def)
  next
    case (Some h)
    then obtain tm where "timers w = [(h, tm)]" using assms by auto
    then show ?thesis using Some by (simp add: run_cleanup_def clearInterval_def)
  qed
qed (simp_all add: run_cleanup_def clearInterval_def split: option.splits)

lemma step_tidy:
  assumes "map fst (timers w) = (case cleanup w of None \<Rightarrow> [] | Some h \<Rightarrow> [h])"
  shows "map fst (timers (step parse w ev)) = (case cleanup (step parse w ev) of None \<Rightarrow> [] | Some h \<Rightarrow> [h])"
proof (cases ev)
  case (Rerender en)
  show ?thesis
  proof (cases "deps w = Some (expected_end_date en)")
    case True
    then show ?thesis using assms Rerender by (simp add: rerender_def)
  next
    case False
    have "timers (run_cleanup w) = []" using assms by (rule run_cleanup_tidy)
    from effect_tidy [OF this, of parse en] False Rerender show ?thesis
      by (simp add: rerender_def)
  qed
next
  case (Elapse dt)
  then show ?thesis using assms run_timers_frame [of parse "clock w + dt" w]
    by (simp add: elapse_def)
qed

lemma life_tidy:
  "map fst (timers (life parse en t0 evs)) = (case cleanup (life parse en t0 evs) of None \<Rightarrow> [] | Some h \<Rightarrow> [h])"
proof -
  have start: "map fst (timers (mount parse en (init_card t0)))
      = (case cleanup (mount parse en (init_card t0)) of None \<Rightarrow> [] | Some h \<Rightarrow> [h])"
    using effect_tidy [of "init_card t0" parse en] by (simp add: mount_def init_card_def)
  have "map fst (timers (foldl (step parse) w evs))
      = (case cleanup (foldl (step parse) w evs) of None \<Rightarrow> [] | Some h \<Rightarrow> [h])"
    if "map fst (timers w) = (case cleanup w of None \<Rightarrow> [] | Some h \<Rightarrow> [h])" for w
    using that by (induction evs arbitrary: w) (simp_all add: step_tidy)
  from this [OF start] show ?thesis by (simp add: life_def)
qed

subsection \<open>One armed timer: when it fires\<close>

lemma calc_at_clock:
  "timeRemaining (calculateTimeRemaining parse s w)
     = timeRemaining (calculateTimeRemaining parse s (init_card (clock w)))"
  by (simp add: calculateTimeRemaining_def Let_def setTimeRemaining_def init_card_def)

lemma ticks_shift:
  "d # map (\<lambda>k. d + 60000 + 60000 * int k) [0..<m] = map (\<lambda>k. d + 60000 * int k) [0..<Suc m]"
proof -
  have "map (\<lambda>k. d + 60000 * int k) [0..<Suc m]
      = (d + 60000 * int 0) # map (\<lambda>k. d + 60000 * int k) (map Suc [0..<m])"
    by (simp only: upt_conv_Cons [of 0 "Suc m"] map_Suc_upt zero_less_Suc list.map)
  also have "\<dots> = d # map (\<lambda>k. d + 60000 + 60000 * int k) [0..<m]"
    by (simp add: algebra_simps)
  finally show ?thesis by simp
qed

lemma ticks_append:
  "map (\<lambda>k. t0 + 60000 * int k) [0..<a] @ map (\<lambda>k. t0 + 60000 * int a + 60000 * int k) [0..<n]
     = map (\<lambda>k. t0 + 60000 * int k) [0..<a + n]"
  by (induction n) (simp_all add: algebra_simps)

lemma run_timers_single:
  assumes "timers w = [(h, \<lparr>due = d, period = 60000, callback = cb\<rparr>)]"
    and "clock w \<le> d"
    and "T < d + 60000 * int n"
    and "0 < n \<Longrightarrow> d + 60000 * (int n - 1) \<le> T"
  shows "computed (run_timers parse T w) = computed w @ map (\<lambda>k. d + 60000 * int k) [0..<n]
       \<and> timers (run_timers parse T w) = [(h, \<lparr>due = d + 60000 * int n, period = 60000, callback = cb\<rparr>)]
       \<and> clock (run_timers parse T w) = max (clock w) T
       \<and> timeRemaining (run_timers parse T w)
           = (if n = 0 then timeRemaining w
              else timeRemaining (calculateTimeRemaining parse cb (init_card (d + 60000 * (int n - 1)))))"
  using assms
proof (induction n arbitrary: w d)
  case 0
  then have "next_due T w = None" by (simp add: next_due_def)
  then show ?case using 0 by (simp add: run_timers.simps [of parse T w])
next
  case (Suc m)
  let ?tm = "\<lparr>due = d, period = 60000, callback = cb\<rparr>"
  let ?w = "fire parse h ?tm w"
  have dT: "d \<le> T" using Suc.prems(4) by simp
  then have nd: "next_due T w = Some (h, ?tm)" using Suc.prems(1) by (simp add: next_due_def)
  have run: "run_timers parse T w = run_timers parse T ?w"
    using nd by (simp add: run_timers.simps [of parse T w])
  have t': "timers ?w = [(h, \<lparr>due = d + 60000, period = 60000, callback = cb\<rparr>)]"
    using Suc.prems(1) by (simp add: fire_frame rearm_def)
  have c': "clock ?w = d" using Suc.prems(2) by (simp add: fire_frame)
  have k': "computed ?w = computed w @ [d]" using Suc.prems(2) by (simp add: fire_frame max_def)
  have r': "timeRemaining ?w = timeRemaining (calculateTimeRemaining parse cb (init_card d))"
    using Suc.prems(2) calc_at_clock [of parse cb "w\<lparr>clock := max (clock w) d\<rparr>"]
    by (simp add: fire_def Let_def max_def)
  have p3: "T < d + 60000 + 60000 * int m" using Suc.prems(3) by simp
  have p4: "0 < m \<Longrightarrow> d + 60000 + 60000 * (int m - 1) \<le> T" using Suc.prems(4) by simp
  have p2: "clock ?w \<le> d + 60000" using c' by simp
  note IH = Suc.IH [OF t' p2 p3 p4]
  have cT: "max d T = max (clock w) T" using dT Suc.prems(2) by simp
  have "computed (run_timers parse T ?w) = computed w @ map (\<lambda>k. d + 60000 * int k) [0..<Suc m]"
    using IH k' ticks_shift [of d m] by simp
  moreover have "timers (run_timers parse T ?w)
      = [(h, \<lparr>due = d + 60000 * int (Suc m), period = 60000, callback = cb\<rparr>)]"
    using IH by (simp add: algebra_simps)
  moreover have "clock (run_timers parse T ?w) = max (clock w) T"
    using IH c' cT by simp
  moreover have "timeRemaining (run_timers parse T ?w)
      = timeRemaining (calculateTimeRemaining parse cb (init_card (d + 60000 * (int (Suc m) - 1))))"
  proof (cases "m = 0")
    case True
    then show ?thesis using IH r' by simp
  next
    case False
    have "d + 60000 + 60000 * (int m - 1) = d + 60000 * (int (Suc m) - 1)" by simp
    then show ?thesis using IH False by simp
  qed
  ultimately show ?case unfolding run by simp
qed

lemma effect_ticking:
  assumes "timers w = []"
  shows "ticking parse (expected_end_date en) (next_handle w) (computed w) (clock w) 0
           ((effect parse en w)\<lparr>deps := Some (expected_end_date en)\<rparr>)"
  using assms calc_at_clock [of parse "expected_end_date en" w]
  by (simp add: ticking_def effect_def setInterval_def Let_def calc_frame)

lemma elapse_ticking:
  assumes "ticking parse cb h ks t0 D w" and "0 \<le> D" and "0 \<le> dt"
  shows "ticking parse cb h ks t0 (D + dt) (elapse parse dt w)"
proof -
  define q where "q = D div 60000"
  define q' where "q' = (D + dt) div 60000"
  define n where "n = nat (q' - q)"
  have tm: "timers w = [(h, \<lparr>due = t0 + 60000 * (q + 1), period = 60000, callback = cb\<rparr>)]"
    and cl: "cleanup w = Some h" and dp: "deps w = Some cb" and ck: "clock w = t0 + D"
    and ks: "computed w = ks @ map (\<lambda>k. t0 + 60000 * int k) [0..<Suc (nat q)]"
    and tr: "timeRemaining w = timeRemaining (calculateTimeRemaining parse cb (init_card (t0 + 60000 * q)))"
    using assms(1) by (simp_all add: ticking_def q_def)
  have q0: "0 \<le> q" unfolding q_def using assms(2) by (simp add: pos_imp_zdiv_nonneg_iff)
  have qq: "q \<le> q'" unfolding q_def q'_def using assms(3) by (simp add: zdiv_mono1)
  have n: "int n = q' - q" unfolding n_def using qq by simp
  have lo: "60000 * q' \<le> D + dt" and hi: "D + dt < 60000 * q' + 60000"
    unfolding q'_def by (simp_all add: algebra_simps)
  have lo0: "60000 * q \<le> D" unfolding q_def by (simp add: algebra_simps)
  let ?d = "t0 + 60000 * (q + 1)"
  let ?T = "clock w + dt"
  have a2: "clock w \<le> ?d" using ck q_def by (simp add: algebra_simps)
  have a3: "?T < ?d + 60000 * int n" using hi n ck by (simp add: algebra_simps)
  have a4: "0 < n \<Longrightarrow> ?d + 60000 * (int n - 1) \<le> ?T" using lo n ck by (simp add: algebra_simps)
  note R = run_timers_single [OF tm a2 a3 a4, of parse]
  note F = run_timers_frame [of parse ?T w]
  have due: "?d + 60000 * int n = t0 + 60000 * (q' + 1)" using n by (simp add: algebra_simps)
  have len: "Suc (nat q) + n = Suc (nat q')" using q0 qq n by simp
  have d': "?d = t0 + 60000 * int (Suc (nat q))" using q0 by simp
  have ks': "computed w @ map (\<lambda>k. ?d + 60000 * int k) [0..<n]
      = ks @ map (\<lambda>k. t0 + 60000 * int k) [0..<Suc (nat q')]"
    unfolding ks d' append_assoc ticks_append len ..
  have tr': "(if n = 0 then timeRemaining w
              else timeRemaining (calculateTimeRemaining parse cb (init_card (?d + 60000 * (int n - 1)))))
      = timeRemaining (calculateTimeRemaining parse cb (init_card (t0 + 60000 * q')))"
  proof (cases "n = 0")
    case True
    then have "q' = q" using n by simp
    then show ?thesis using True tr by simp
  next
    case False
    have "?d + 60000 * (int n - 1) = t0 + 60000 * q'" using n by (simp add: algebra_simps)
    then show ?thesis using False by simp
  qed
  have ck': "max (clock w) ?T = t0 + (D + dt)" using ck assms(3) by simp
  show ?thesis
    unfolding ticking_def elapse_def q'_def [symmetric]
    using R F ks' tr' due ck' cl dp by simp
qed

lemma steps_ticking:
  assumes "ticking parse cb h ks t0 D w" and "0 \<le> D" and "\<forall>ev\<in>set evs. steady cb ev"
  shows "ticking parse cb h ks t0 (D + elapsed evs) (foldl (step parse) w evs)"
  using assms
proof (induction evs arbitrary: w D)
  case Nil
  then show ?case by simp
next
  case (Cons ev evs)
  have rest: "\<forall>x\<in>set evs. steady cb x" using Cons.prems(3) by simp
  show ?case
  proof (cases ev)
    case (Rerender e)
    then have "expected_end_date e = cb" using Cons.prems(3) by simp
    then have "step parse w ev = w"
      using Cons.prems(1) Rerender by (simp add: rerender_def ticking_def)
    then show ?thesis
      using Cons.IH [OF Cons.prems(1,2) rest] Rerender by simp
  next
    case (Elapse dt)
    then have dt: "0 \<le> dt" using Cons.prems(3) by simp
    have "ticking parse cb h ks t0 (D + dt) (elapse parse dt w)"
      using Cons.prems(1,2) dt by (rule elapse_ticking)
    moreover have "0 \<le> D + dt" using Cons.prems(2) dt by simp
    ultimately have "ticking parse cb h ks t0 (D + dt + elapsed evs)
        (foldl (step parse) (elapse parse dt w) evs)"
      using rest by (rule Cons.IH)
    then show ?thesis using Elapse by (simp add: add.assoc)
  qed
qed

text \<open>A life with one change of the expected end date.\<close>

lemma restart_trace:
  assumes "expected_end_date en' \<noteq> expected_end_date en" and "0 \<le> a" and "0 \<le> b"
  shows "ticking parse (expected_end_date en') 1
           (map (\<lambda>k. t0 + 60000 * int k) [0..<Suc (nat (a div 60000))]) (t0 + a) b
           (life parse en t0 [Elapse a, Rerender en', Elapse b])"
proof -
  let ?cb = "expected_end_date en"
  let ?w0 = "mount parse en (init_card t0)"
  let ?w1 = "elapse parse a ?w0"
  have m: "ticking parse ?cb 0 [] t0 0 ?w0"
    using effect_ticking [of "init_card t0" parse en] by (simp add: mount_def init_card_def)
  have nh: "next_handle ?w0 = 1"
    by (simp add: mount_def effect_def setInterval_def Let_def calc_frame init_card_def)
  from elapse_ticking [OF m _ assms(2)] have w1: "ticking parse ?cb 0 [] t0 a ?w1" by simp
  have nh1: "next_handle ?w1 = 1"
    using run_timers_frame [of parse "clock ?w0 + a" ?w0] nh by (simp add: elapse_def)
  have tidy: "map fst (timers ?w1) = (case cleanup ?w1 of None \<Rightarrow> [] | Some h \<Rightarrow> [h])"
    using w1 by (simp add: ticking_def)
  note rc = run_cleanup_tidy [OF tidy]
  have ck: "clock (run_cleanup ?w1) = t0 + a"
    using w1 by (simp add: run_cleanup_def clearInterval_def ticking_def split: option.splits)
  have nh2: "next_handle (run_cleanup ?w1) = 1"
    using nh1 by (simp add: run_cleanup_def clearInterval_def split: option.splits)
  have k1: "computed (run_cleanup ?w1) = map (\<lambda>k. t0 + 60000 * int k) [0..<Suc (nat (a div 60000))]"
    using rc(3) w1 by (simp add: ticking_def)
  have re: "rerender parse en' ?w1
      = (effect parse en' (run_cleanup ?w1))\<lparr>deps := Some (expected_end_date en')\<rparr>"
    using w1 assms(1) by (simp add: rerender_def ticking_def)
  from effect_ticking [OF rc(1), of parse en']
  have "ticking parse (expected_end_date en') 1
      (map (\<lambda>k. t0 + 60000 * int k) [0..<Suc (nat (a div 60000))]) (t0 + a) 0
      (rerender parse en' ?w1)"
    unfolding re nh2 k1 ck .
  from elapse_ticking [OF this _ assms(3)]
  have "ticking parse (expected_end_date en') 1
      (map (\<lambda>k. t0 + 60000 * int k) [0..<Suc (nat (a div 60000))]) (t0 + a) b
      (elapse parse b (rerender parse en' ?w1))"
    by simp
  then show ?thesis by (simp add: life_def)
qed

subsection \<open>After the card is unmounted\<close>

text \<open>
  C7. Take a card through any life: mounted at any instant with any enrollment, then
  any sequence of renders (with the same or another expected end date) and of time
  passing. When it is unmounted, the teardown leaves the host without any timer of the
  card, and from then on, however much time passes and in however many steps,
  \<open>calculateTimeRemaining\<close> never runs again and the card's TimeRemaining is never
  written again.
\<close>

theorem unmount_cancels_timer:
  "timers (unmount (life parse en t0 evs)) = []
   \<and> cleanup (unmount (life parse en t0 evs)) = None
   \<and> computed (unmount (life parse en t0 evs)) = computed (life parse en t0 evs)
   \<and> (\<forall>dts. computed (foldl (\<lambda>w dt. elapse parse dt w) (unmount (life parse en t0 evs)) dts)
               = computed (life parse en t0 evs)
            \<and> timeRemaining (foldl (\<lambda>w dt. elapse parse dt w) (unmount (life parse en t0 evs)) dts)
               = timeRemaining (life parse en t0 evs)
            \<and> timers (foldl (\<lambda>w dt. elapse parse dt w) (unmount (life parse en t0 evs)) dts) = [])"
proof -
  let ?w = "life parse en t0 evs"
  note rc = run_cleanup_tidy [OF life_tidy [of parse en t0 evs]]
  have t: "timers (unmount ?w) = []" and c: "cleanup (unmount ?w) = None"
    and k: "computed (unmount ?w) = computed ?w" and r: "timeRemaining (unmount ?w) = timeRemaining ?w"
    using rc by (simp_all add: unmount_def)
  from elapses_idle [OF t, of parse] t c k r show ?thesis by simp
qed

theorem unmount_cancels_timer_witness:
  "timers (unmount (life (\<lambda>s. if s = ''2023-11-29T01:18:20.000Z'' then Some 1701220700000 else None)
       \<lparr>enrollment_id = ''e1'', course = \<lparr>course_id = ''c1'', title = ''Algebra'', description = ''Groups'', duration_weeks = Num 12\<rparr>, start_date = ''2023-09-01'', expected_end_date = ''2023-11-29T01:18:20.000Z'', status = ''active''\<rparr>
       1700000000000
       [Elapse 130000,
        Rerender \<lparr>enrollment_id = ''e1'', course = \<lparr>course_id = ''c1'', title = ''Algebra'', description = ''Groups'', duration_weeks = Num 12\<rparr>, start_date = ''2023-09-01'', expected_end_date = ''2023-12-06T01:18:20.000Z'', status = ''active''\<rparr>,
        Elapse 50000])) = []
   \<and> computed (foldl (\<lambda>w dt. elapse (\<lambda>s. if s = ''2023-11-29T01:18:20.000Z'' then Some 1701220700000 else None) dt w)
        (unmount (life (\<lambda>s. if s = ''2023-11-29T01:18:20.000Z'' then Some 1701220700000 else None)
           \<lparr>enrollment_id = ''e1'', course = \<lparr>course_id = ''c1'', title = ''Algebra'', description = ''Groups'', duration_weeks = Num 12\<rparr>, start_date = ''2023-09-01'', expected_end_date = ''2023-11-29T01:18:20.000Z'', status = ''active''\<rparr>
           1700000000000
           [Elapse 130000,
            Rerender \<lparr>enrollment_id = ''e1'', course = \<lparr>course_id = ''c1'', title = ''Algebra'', description = ''Groups'', duration_weeks = Num 12\<rparr>, start_date = ''2023-09-01'', expected_end_date = ''2023-12-06T01:18:20.000Z'', status = ''active''\<rparr>,
            Elapse 50000]))
        [600000, 86400000])
      = [1700000000000, 1700000060000, 1700000120000, 1700000130000]"
proof -
  let ?parse = "(\<lambda>s. if s = ''2023-11-29T01:18:20.000Z'' then Some 1701220700000 else None)"
  let ?en = "\<lparr>enrollment_id = ''e1'', course = \<lparr>course_id = ''c1'', title = ''Algebra'', description = ''Groups'', duration_weeks = Num 12\<rparr>, start_date = ''2023-09-01'', expected_end_date = ''2023-11-29T01:18:20.000Z'', status = ''active''\<rparr>"
  let ?evs = "[Elapse 130000,
        Rerender \<lparr>enrollment_id = ''e1'', course = \<lparr>course_id = ''c1'', title = ''Algebra'', description = ''Groups'', duration_weeks = Num 12\<rparr>, start_date = ''2023-09-01'', expected_end_date = ''2023-12-06T01:18:20.000Z'', status = ''active''\<rparr>,
        Elapse 50000]"
  have "computed (life ?parse ?en 1700000000000 ?evs)
      = [1700000000000, 1700000060000, 1700000120000, 1700000130000]"
    using restart_trace [of _ ?en 130000 50000 ?parse 1700000000000]
    by (simp add: ticking_def upt_rec)
  moreover from unmount_cancels_timer [of ?parse ?en 1700000000000 ?evs]
  have "timers (unmount (life ?parse ?en 1700000000000 ?evs)) = []"
    and "computed (foldl (\<lambda>w dt. elapse ?parse dt w)
           (unmount (life ?parse ?en 1700000000000 ?evs)) [600000, 86400000])
         = computed (life ?parse ?en 1700000000000 ?evs)"
    by blast+
  ultimately show ?thesis by simp
qed

subsection \<open>The cadence of the computations\<close>

text \<open>
  C8 as stated does not hold of every mounted card. This one is mounted at
  1700000000000 and, 130000 ms later, rendered with an enrollment whose expected end
  date has changed. Its computations are those at +0, +60000, +120000, and then at
  +130000, the instant of that render; after 180000 ms its timer is due at +190000.
  One computation per 60000 ms since the card was initialized would be those at +0,
  +60000, +120000, +180000.
\<close>

theorem changed_end_date_restarts_counterexample:
  "computed (life (\<lambda>s. if s = ''2023-11-29T01:18:20.000Z'' then Some 1701220700000 else if s = ''2023-12-06T01:18:20.000Z'' then Some 1701825500000 else None)
       \<lparr>enrollment_id = ''e1'', course = \<lparr>course_id = ''c1'', title = ''Algebra'', description = ''Groups'', duration_weeks = Num 12\<rparr>, start_date = ''2023-09-01'', expected_end_date = ''2023-11-29T01:18:20.000Z'', status = ''active''\<rparr>
       1700000000000
       [Elapse 130000,
        Rerender \<lparr>enrollment_id = ''e1'', course = \<lparr>course_id = ''c1'', title = ''Algebra'', description = ''Groups'', duration_weeks = Num 12\<rparr>, start_date = ''2023-09-01'', expected_end_date = ''2023-12-06T01:18:20.000Z'', status = ''active''\<rparr>,
        Elapse 50000])
     = [1700000000000, 1700000060000, 1700000120000, 1700000130000]
   \<and> timers (life (\<lambda>s. if s = ''2023-11-29T01:18:20.000Z'' then Some 1701220700000 else if s = ''2023-12-06T01:18:20.000Z'' then Some 1701825500000 else None)
       \<lparr>enrollment_id = ''e1'', course = \<lparr>course_id = ''c1'', title = ''Algebra'', description = ''Groups'', duration_weeks = Num 12\<rparr>, start_date = ''2023-09-01'', expected_end_date = ''2023-11-29T01:18:20.000Z'', status = ''active''\<rparr>
       1700000000000
       [Elapse 130000,
        Rerender \<lparr>enrollment_id = ''e1'', course = \<lparr>course_id = ''c1'', title = ''Algebra'', description = ''Groups'', duration_weeks = Num 12\<rparr>, start_date = ''2023-09-01'', expected_end_date = ''2023-12-06T01:18:20.000Z'', status = ''active''\<rparr>,
        Elapse 50000])
     = [(1, \<lparr>due = 1700000190000, period = 60000, callback = ''2023-12-06T01:18:20.000Z''\<rparr>)]
   \<and> map (\<lambda>k. 1700000000000 + 60000 * int k) [0..<Suc (nat ((130000 + 50000) div 60000))]
     = [1700000000000, 1700000060000, 1700000120000, 1700000180000]"
  using restart_trace [of
      "\<lparr>enrollment_id = ''e1'', course = \<lparr>course_id = ''c1'', title = ''Algebra'', description = ''Groups'', duration_weeks = Num 12\<rparr>, start_date = ''2023-09-01'', expected_end_date = ''2023-12-06T01:18:20.000Z'', status = ''active''\<rparr>"
      "\<lparr>enrollment_id = ''e1'', course = \<lparr>course_id = ''c1'', title = ''Algebra'', description = ''Groups'', duration_weeks = Num 12\<rparr>, start_date = ''2023-09-01'', expected_end_date = ''2023-11-29T01:18:20.000Z'', status = ''active''\<rparr>"
      130000 50000
      "(\<lambda>s. if s = ''2023-11-29T01:18:20.000Z'' then Some 1701220700000 else if s = ''2023-12-06T01:18:20.000Z'' then Some 1701825500000 else None)"
      1700000000000]
  by (simp add: ticking_def upt_rec)

text \<open>
  C8, amended. A card mounted at instant \<open>t0\<close> computes its countdown at \<open>t0\<close>, within
  the effect and before it arms the interval, whose first tick is due 60000 ms later.
  As long as the card stays mounted and its expected end date does not change, through
  any renders and however time passes (\<open>elapsed evs\<close> ms in total), the computations made
  are those at \<open>t0\<close>, \<open>t0 + 60000\<close>, ..., one per 60000 ms, in this order; the value shown is
  that of the last of them, and the interval is armed for the next one. A render with
  another expected end date, after any life, runs the effect again: a computation at
  the instant of that render, and then one per 60000 ms from that instant.
\<close>

theorem first_computation_then_every_minute:
  assumes "\<forall>ev\<in>set evs. steady (expected_end_date en) ev"
  shows "computed (mount parse en (init_card t0)) = [t0]
       \<and> timeRemaining (mount parse en (init_card t0))
           = timeRemaining (calculateTimeRemaining parse (expected_end_date en) (init_card t0))
       \<and> timers (mount parse en (init_card t0))
           = [(0, \<lparr>due = t0 + 60000, period = 60000, callback = expected_end_date en\<rparr>)]
       \<and> computed (life parse en t0 evs)
           = map (\<lambda>k. t0 + 60000 * int k) [0..<Suc (nat (elapsed evs div 60000))]
       \<and> timeRemaining (life parse en t0 evs)
           = timeRemaining (calculateTimeRemaining parse (expected_end_date en)
               (init_card (t0 + 60000 * (elapsed evs div 60000))))
       \<and> timers (life parse en t0 evs)
           = [(0, \<lparr>due = t0 + 60000 * (elapsed evs div 60000 + 1), period = 60000,
                  callback = expected_end_date en\<rparr>)]
       \<and> (deps (life parse en0 t1 pre) \<noteq> Some (expected_end_date en) \<longrightarrow>
            computed (life parse en0 t1 (pre @ Rerender en # evs))
              = computed (life parse en0 t1 pre)
                @ map (\<lambda>k. clock (life parse en0 t1 pre) + 60000 * int k)
                    [0..<Suc (nat (elapsed evs div 60000))])"
proof -
  let ?cb = "expected_end_date en"
  have m: "ticking parse ?cb 0 [] t0 0 (mount parse en (init_card t0))"
    using effect_ticking [of "init_card t0" parse en] by (simp add: mount_def init_card_def)
  from steps_ticking [OF m _ assms]
  have l: "ticking parse ?cb 0 [] t0 (elapsed evs) (life parse en t0 evs)"
    by (simp add: life_def)
  have re: "computed (life parse en0 t1 (pre @ Rerender en # evs))
              = computed (life parse en0 t1 pre)
                @ map (\<lambda>k. clock (life parse en0 t1 pre) + 60000 * int k)
                    [0..<Suc (nat (elapsed evs div 60000))]"
    if d: "deps (life parse en0 t1 pre) \<noteq> Some ?cb"
  proof -
    let ?w = "life parse en0 t1 pre"
    note rc = run_cleanup_tidy [OF life_tidy [of parse en0 t1 pre]]
    have w': "rerender parse en ?w = (effect parse en (run_cleanup ?w))\<lparr>deps := Some ?cb\<rparr>"
      using d by (simp add: rerender_def)
    have ck: "clock (run_cleanup ?w) = clock ?w"
      by (simp add: run_cleanup_def clearInterval_def split: option.splits)
    have "ticking parse ?cb (next_handle (run_cleanup ?w)) (computed ?w) (clock ?w) 0
        (rerender parse en ?w)"
      using effect_ticking [OF rc(1), of parse en] rc(3) ck w' by simp
    from steps_ticking [OF this _ assms]
    have "ticking parse ?cb (next_handle (run_cleanup ?w)) (computed ?w) (clock ?w) (elapsed evs)
        (foldl (step parse) (rerender parse en ?w) evs)"
      by simp
    moreover have "life parse en0 t1 (pre @ Rerender en # evs)
        = foldl (step parse) (rerender parse en ?w) evs"
      by (simp add: life_def)
    ultimately show ?thesis by (simp add: ticking_def)
  qed
  show ?thesis
    using m l re by (simp add: ticking_def)
qed

theorem first_computation_then_every_minute_witness:
  "computed (life (\<lambda>s. if s = ''2023-11-29T01:18:20.000Z'' then Some 1701220700000 else None)
       \<lparr>enrollment_id = ''e1'', course = \<lparr>course_id = ''c1'', title = ''Algebra'', description = ''Groups'', duration_weeks = Num 12\<rparr>, start_date = ''2023-09-01'', expected_end_date = ''2023-11-29T01:18:20.000Z'', status = ''active''\<rparr>
       1700000000000
       [Elapse 130000,
        Rerender \<lparr>enrollment_id = ''e1'', course = \<lparr>course_id = ''c1'', title = ''Algebra'', description = ''Groups'', duration_weeks = Num 12\<rparr>, start_date = ''2023-09-01'', expected_end_date = ''2023-11-29T01:18:20.000Z'', status = ''active''\<rparr>,
        Elapse 50000])
     = [1700000000000, 1700000060000, 1700000120000, 1700000180000]"
proof -
  let ?en = "\<lparr>enrollment_id = ''e1'', course = \<lparr>course_id = ''c1'', title = ''Algebra'', description = ''Groups'', duration_weeks = Num 12\<rparr>, start_date = ''2023-09-01'', expected_end_date = ''2023-11-29T01:18:20.000Z'', status = ''active''\<rparr>"
  let ?evs = "[Elapse 130000, Rerender ?en, Elapse 50000]"
  have 1: "\<forall>ev\<in>set ?evs. steady (expected_end_date ?en) ev" by simp
  have 2: "[0..<Suc (nat (elapsed ?evs div 60000))] = [0, 1, 2, 3]"
    by (simp add: upt_rec)
  from first_computation_then_every_minute [OF 1,
      of "(\<lambda>s. if s = ''2023-11-29T01:18:20.000Z'' then Some 1701220700000 else None)" 1700000000000]
  show ?thesis unfolding 2 by simp
qed

end
